theory Spec2Isabelle
  imports Main "HOL-Library.Word"
begin

section \<open>Firmware-log schema extraction: the XML helper of \<open>src/fw-logs\<close>\<close>

text \<open>
  The development follows \<open>src/fw-logs/fw-logs-xml-helper.cpp\<close> function by function.
  The tree parser (rapidxml) is an external library: a parsed tree is a value of
  \<open>xml_node\<close>, and the parser itself is a parameter of every entry point.
\<close>

subsection \<open>Parsed documents\<close>

text \<open>
  A node carries its tag, its attributes in document order and its children in document
  order. The sibling chain \<open>first_node()\<close>, \<open>next_sibling()\<close>, ... of the source is
  the list of children; a null pointer ends the chain, as \<open>[]\<close> ends the list. The
  document is itself a node (as in rapidxml), whose children are the top-level nodes.
\<close>

datatype xml_node =
  Node (node_name: string) (node_attributes: "(string \<times> string) list") (node_children: "xml_node list")

type_synonym xml_document = xml_node

text \<open>
  Every failure of the source is a value. The helper throws
  \<open>invalid_value_exception\<close> with a message; each constructor stands for one message
  and carries what the message prints. \<open>std::stoi\<close> throws two exceptions of its own,
  and the parser throws \<open>parse_error\<close>. Reading the name of a null root is undefined
  behaviour in the source; the model gives it a value of its own.
\<close>

datatype error =
    Empty_XML_Content
  | Parse_Error
  | Null_Root_Dereference
  | Root_Should_Be_Format
  | Cant_Find_Attribute string string
  | Source_Node_Not_Found int
  | File_Attribute_Not_Found int
  | Cant_Find_Event_Data
  | Cant_Find_EnumValue string
  | Stoi_Invalid_Argument
  | Stoi_Out_Of_Range

type_synonym xml_parser = "string \<Rightarrow> error + xml_document"

subsection \<open>\<open>std::stoi\<close>\<close>

text \<open>
  \<open>std::stoi (s)\<close> in base 10: leading white space is skipped, one sign is optional,
  the longest run of decimal digits is read and whatever follows is ignored. No digit
  is \<open>invalid_argument\<close>; a value outside the 32-bit \<open>int\<close> is \<open>out_of_range\<close>.
\<close>

definition is_space :: "char \<Rightarrow> bool" where
  "is_space c = (c = CHR '' '' \<or> ((9::nat) \<le> of_char c \<and> of_char c \<le> (13::nat)))"

definition is_digit :: "char \<Rightarrow> bool" where
  "is_digit c = ((48::nat) \<le> of_char c \<and> of_char c \<le> (57::nat))"

definition digits_value :: "string \<Rightarrow> nat" where
  "digits_value ds = foldl (\<lambda>acc c. 10 * acc + (of_char c - 48)) (0::nat) ds"

definition strip_sign :: "string \<Rightarrow> bool \<times> string" where
  "strip_sign t =
     (case t of
        [] \<Rightarrow> (False, [])
      | c # r \<Rightarrow> if c = CHR ''-'' then (True, r) else if c = CHR ''+'' then (False, r) else (False, t))"

definition stoi :: "string \<Rightarrow> error + int" where
  "stoi s =
     (let (neg, u) = strip_sign (dropWhile is_space s);
          ds = takeWhile is_digit u;
          v = (if neg then - int (digits_value ds) else int (digits_value ds))
      in if ds = [] then Inl Stoi_Invalid_Argument
         else if v < - 2147483648 \<or> 2147483647 < v then Inl Stoi_Out_Of_Range
         else Inr v)"

subsection \<open>\<open>std::unordered_map::insert\<close>\<close>

text \<open>
  \<open>insert\<close> adds the pair only when the key is not in the map yet; a key that is
  already there keeps its value.
\<close>

definition umap_insert :: "('k \<rightharpoonup> 'v) \<Rightarrow> 'k \<Rightarrow> 'v \<Rightarrow> ('k \<rightharpoonup> 'v)" where
  "umap_insert m k v = (case m k of None \<Rightarrow> m(k \<mapsto> v) | Some _ \<Rightarrow> m)"

subsection \<open>Loading\<close>

definition string_to_char_buffer :: "string \<Rightarrow> string" where
  "string_to_char_buffer xml_content = xml_content @ [CHR 0x00, CHR 0x00]"

definition load_external_xml :: "xml_parser \<Rightarrow> string \<Rightarrow> error + xml_document" where
  "load_external_xml parse buffer =
     (if buffer = [] then Inl Empty_XML_Content else parse buffer)"

text \<open>
  \<open>get_first_node\<close> returns the first child of the root, from which the callers walk
  the sibling chain: the model returns the whole chain, the children of the root.
\<close>

definition get_first_node :: "xml_document \<Rightarrow> error + xml_node list" where
  "get_first_node document =
     (case node_children document of
        [] \<Rightarrow> Inl Null_Root_Dereference
      | root # _ \<Rightarrow>
          if node_name root \<noteq> ''Format'' then Inl Root_Should_Be_Format
          else Inr (node_children root))"

subsection \<open>Attributes\<close>

text \<open>
  Each attribute loop of the source returns at the first attribute of the wanted name:
  that is \<open>map_of\<close> on the attribute list.
\<close>

definition get_id_attribute :: "xml_node \<Rightarrow> error + int" where
  "get_id_attribute node =
     (case map_of (node_attributes node) ''id'' of
        Some id_as_str \<Rightarrow> stoi id_as_str
      | None \<Rightarrow> Inl (Cant_Find_Attribute ''id'' (node_name node)))"

definition get_name_attribute :: "xml_node \<Rightarrow> error + string" where
  "get_name_attribute node =
     (case map_of (node_attributes node) ''Name'' of
        Some attr_value \<Rightarrow> Inr attr_value
      | None \<Rightarrow> Inl (Cant_Find_Attribute ''Name'' (node_name node)))"

definition get_verbosity_attribute :: "xml_node \<Rightarrow> error + int" where
  "get_verbosity_attribute node =
     (case map_of (node_attributes node) ''verbosity'' of
        Some id_as_str \<Rightarrow> stoi id_as_str
      | None \<Rightarrow> Inl (Cant_Find_Attribute ''verbosity'' (node_name node)))"

subsection \<open>The definitions document\<close>

fun get_source_node_loop :: "int \<Rightarrow> xml_node list \<Rightarrow> error + xml_node" where
  "get_source_node_loop source_id [] = Inl (Source_Node_Not_Found source_id)"
| "get_source_node_loop source_id (node # rest) =
     (if node_name node = ''Source'' then
        (case get_id_attribute node of
           Inl e \<Rightarrow> Inl e
         | Inr i \<Rightarrow> if source_id = i then Inr node else get_source_node_loop source_id rest)
      else get_source_node_loop source_id rest)"

definition get_source_node :: "int \<Rightarrow> xml_document \<Rightarrow> error + xml_node" where
  "get_source_node source_id document =
     (case get_first_node document of
        Inl e \<Rightarrow> Inl e
      | Inr nodes \<Rightarrow> get_source_node_loop source_id nodes)"

fun get_file_path_loop :: "xml_node list \<Rightarrow> string" where
  "get_file_path_loop [] = []"
| "get_file_path_loop (node # rest) =
     (if node_name node = ''File'' then
        (case map_of (node_attributes node) ''Path'' of
           Some path \<Rightarrow> path
         | None \<Rightarrow> get_file_path_loop rest)
      else get_file_path_loop rest)"

definition get_file_path :: "xml_node \<Rightarrow> string" where
  "get_file_path source_node = get_file_path_loop (node_children source_node)"

definition get_source_parser_file_path :: "xml_parser \<Rightarrow> int \<Rightarrow> string \<Rightarrow> error + string" where
  "get_source_parser_file_path parse source_id definitions_xml =
     (case load_external_xml parse (string_to_char_buffer definitions_xml) of
        Inl e \<Rightarrow> Inl e
      | Inr document \<Rightarrow>
          (case get_source_node source_id document of
             Inl e \<Rightarrow> Inl e
           | Inr source_node \<Rightarrow>
               (let path = get_file_path source_node
                in if path = [] then Inl (File_Attribute_Not_Found source_id) else Inr path)))"

text \<open>
  The two calls in the braces of \<open>insert ({get_id_attribute (node),
  get_verbosity_attribute (node)})\<close> run left to right, so a failure of the first hides
  the second.
\<close>

fun module_verbosity_loop :: "xml_node list \<Rightarrow> (int \<rightharpoonup> int) \<Rightarrow> error + (int \<rightharpoonup> int)" where
  "module_verbosity_loop [] module_id_verbosity = Inr module_id_verbosity"
| "module_verbosity_loop (node # rest) module_id_verbosity =
     (if node_name node = ''Module'' then
        (case get_id_attribute node of
           Inl e \<Rightarrow> Inl e
         | Inr i \<Rightarrow>
             (case get_verbosity_attribute node of
                Inl e \<Rightarrow> Inl e
              | Inr v \<Rightarrow> module_verbosity_loop rest (umap_insert module_id_verbosity i v)))
      else module_verbosity_loop rest module_id_verbosity)"

definition get_source_module_verbosity :: "xml_parser \<Rightarrow> int \<Rightarrow> string \<Rightarrow> error + (int \<rightharpoonup> int)" where
  "get_source_module_verbosity parse source_id definitions_xml =
     (case load_external_xml parse (string_to_char_buffer definitions_xml) of
        Inl e \<Rightarrow> Inl e
      | Inr document \<Rightarrow>
          (case get_source_node source_id document of
             Inl e \<Rightarrow> Inl e
           | Inr source_node \<Rightarrow> module_verbosity_loop (node_children source_node) Map.empty))"

subsection \<open>The parser-contents document: events\<close>

text \<open>
  The attribute loop of \<open>get_event_data\<close> starts from \<open>num_of_args = -1\<close> and an empty
  \<open>format\<close>; a later \<open>numberOfArguments\<close> overwrites, a later \<open>format\<close> is appended.
\<close>

fun event_attribute_loop :: "(string \<times> string) list \<Rightarrow> int \<Rightarrow> string \<Rightarrow> error + (int \<times> string)" where
  "event_attribute_loop [] num_of_args format = Inr (num_of_args, format)"
| "event_attribute_loop ((attr, val) # rest) num_of_args format =
     (if attr = ''numberOfArguments'' then
        (case stoi val of
           Inl e \<Rightarrow> Inl e
         | Inr n \<Rightarrow> event_attribute_loop rest n format)
      else if attr = ''format'' then event_attribute_loop rest num_of_args (format @ val)
      else event_attribute_loop rest num_of_args format)"

definition get_event_data :: "xml_node \<Rightarrow> error + (int \<times> string)" where
  "get_event_data node =
     (case event_attribute_loop (node_attributes node) (- 1) [] of
        Inl e \<Rightarrow> Inl e
      | Inr (num_of_args, format) \<Rightarrow>
          if num_of_args < 0 \<or> format = [] then Inl Cant_Find_Event_Data
          else Inr (num_of_args, format))"

fun get_events_loop ::
  "xml_node list \<Rightarrow> (int \<rightharpoonup> int \<times> string) \<Rightarrow> error + (int \<rightharpoonup> int \<times> string)" where
  "get_events_loop [] m = Inr m"
| "get_events_loop (node # rest) m =
     (if node_name node = ''Event'' then
        (case get_id_attribute node of
           Inl e \<Rightarrow> Inl e
         | Inr i \<Rightarrow>
             (case get_event_data node of
                Inl e \<Rightarrow> Inl e
              | Inr d \<Rightarrow> get_events_loop rest (umap_insert m i d)))
      else get_events_loop rest m)"

definition get_events :: "xml_parser \<Rightarrow> string \<Rightarrow> error + (int \<rightharpoonup> int \<times> string)" where
  "get_events parse parser_contents =
     (case load_external_xml parse (string_to_char_buffer parser_contents) of
        Inl e \<Rightarrow> Inl e
      | Inr document \<Rightarrow>
          (case get_first_node document of
             Inl e \<Rightarrow> Inl e
           | Inr nodes \<Rightarrow> get_events_loop nodes Map.empty))"

subsection \<open>The parser-contents document: files, modules, threads\<close>

fun id_to_names_loop ::
  "string \<Rightarrow> xml_node list \<Rightarrow> (int \<rightharpoonup> string) \<Rightarrow> error + (int \<rightharpoonup> string)" where
  "id_to_names_loop tag [] ids_to_names = Inr ids_to_names"
| "id_to_names_loop tag (node # rest) ids_to_names =
     (if node_name node = tag then
        (case get_id_attribute node of
           Inl e \<Rightarrow> Inl e
         | Inr i \<Rightarrow>
             (case get_name_attribute node of
                Inl e \<Rightarrow> Inl e
              | Inr n \<Rightarrow> id_to_names_loop tag rest (umap_insert ids_to_names i n)))
      else id_to_names_loop tag rest ids_to_names)"

definition get_id_to_names :: "xml_parser \<Rightarrow> string \<Rightarrow> string \<Rightarrow> error + (int \<rightharpoonup> string)" where
  "get_id_to_names parse parser_contents tag =
     (case load_external_xml parse (string_to_char_buffer parser_contents) of
        Inl e \<Rightarrow> Inl e
      | Inr document \<Rightarrow>
          (case get_first_node document of
             Inl e \<Rightarrow> Inl e
           | Inr nodes \<Rightarrow> id_to_names_loop tag nodes Map.empty))"

definition get_files :: "xml_parser \<Rightarrow> string \<Rightarrow> error + (int \<rightharpoonup> string)" where
  "get_files parse parser_contents = get_id_to_names parse parser_contents ''File''"

definition get_modules :: "xml_parser \<Rightarrow> string \<Rightarrow> error + (int \<rightharpoonup> string)" where
  "get_modules parse parser_contents = get_id_to_names parse parser_contents ''Module''"

definition get_threads :: "xml_parser \<Rightarrow> string \<Rightarrow> error + (int \<rightharpoonup> string)" where
  "get_threads parse parser_contents = get_id_to_names parse parser_contents ''Thread''"

subsection \<open>The parser-contents document: enums\<close>

text \<open>
  For one \<open>EnumValue\<close> node the attribute loop starts from \<open>key = -1\<close> and an empty
  \<open>value\<close>; it never returns early, so a later \<open>Key\<close> overwrites and a later \<open>Value\<close>
  is appended.
\<close>

fun enum_value_attribute_loop :: "(string \<times> string) list \<Rightarrow> int \<Rightarrow> string \<Rightarrow> error + (int \<times> string)" where
  "enum_value_attribute_loop [] key val = Inr (key, val)"
| "enum_value_attribute_loop ((attr, a_val) # rest) key val =
     (if attr = ''Key'' then
        (case stoi a_val of
           Inl e \<Rightarrow> Inl e
         | Inr k \<Rightarrow> enum_value_attribute_loop rest k val)
      else if attr = ''Value'' then enum_value_attribute_loop rest key (val @ a_val)
      else enum_value_attribute_loop rest key val)"

fun get_enum_values_loop ::
  "xml_node list \<Rightarrow> (int \<times> string) list \<Rightarrow> error + (int \<times> string) list" where
  "get_enum_values_loop [] values_to_descriptions = Inr values_to_descriptions"
| "get_enum_values_loop (node # rest) values_to_descriptions =
     (if node_name node = ''EnumValue'' then
        (case enum_value_attribute_loop (node_attributes node) (- 1) [] of
           Inl e \<Rightarrow> Inl e
         | Inr (key, val) \<Rightarrow>
             if key < 0 \<or> val = [] then Inl (Cant_Find_EnumValue (node_name node))
             else get_enum_values_loop rest (values_to_descriptions @ [(key, val)]))
      else get_enum_values_loop rest values_to_descriptions)"

definition get_enum_values :: "xml_node \<Rightarrow> error + (int \<times> string) list" where
  "get_enum_values enum_node = get_enum_values_loop (node_children enum_node) []"

type_synonym enum_map = "string \<rightharpoonup> (int \<times> string) list"

text \<open>
  In \<open>get_enums\<close> the body of the loop over the attributes of an enum node declares
  \<open>enum_name\<close>, fills it when the attribute is \<open>Name\<close>, reads the values of the node and
  inserts: once for every attribute of the node, whatever its name.
\<close>

fun enum_name_attribute_loop :: "xml_node \<Rightarrow> (string \<times> string) list \<Rightarrow> enum_map \<Rightarrow> error + enum_map" where
  "enum_name_attribute_loop enum_node [] m = Inr m"
| "enum_name_attribute_loop enum_node ((attr, a_val) # rest) m =
     (let enum_name = (if attr = ''Name'' then a_val else [])
      in case get_enum_values enum_node of
           Inl e \<Rightarrow> Inl e
         | Inr vals \<Rightarrow> enum_name_attribute_loop enum_node rest (umap_insert m enum_name vals))"

fun enum_node_loop :: "xml_node list \<Rightarrow> enum_map \<Rightarrow> error + enum_map" where
  "enum_node_loop [] m = Inr m"
| "enum_node_loop (enum_node # rest) m =
     (case enum_name_attribute_loop enum_node (node_attributes enum_node) m of
        Inl e \<Rightarrow> Inl e
      | Inr m' \<Rightarrow> enum_node_loop rest m')"

fun get_enums_loop :: "xml_node list \<Rightarrow> enum_map \<Rightarrow> error + enum_map" where
  "get_enums_loop [] m = Inr m"
| "get_enums_loop (node # rest) m =
     (if node_name node = ''Enums'' then
        (case enum_node_loop (node_children node) m of
           Inl e \<Rightarrow> Inl e
         | Inr m' \<Rightarrow> get_enums_loop rest m')
      else get_enums_loop rest m)"

definition get_enums :: "xml_parser \<Rightarrow> string \<Rightarrow> error + enum_map" where
  "get_enums parse parser_contents =
     (case load_external_xml parse (string_to_char_buffer parser_contents) of
        Inl e \<Rightarrow> Inl e
      | Inr document \<Rightarrow>
          (case get_first_node document of
             Inl e \<Rightarrow> Inl e
           | Inr nodes \<Rightarrow> get_enums_loop nodes Map.empty))"

subsection \<open>The insertion loops\<close>

text \<open>
  The loops that fill a table keyed by the \<open>id\<close> attribute have one shape: skip the
  nodes of another tag, read the id, read the data, insert. The shape is stated once,
  each loop is shown to be an instance of it, and the facts are proved for the shape.
\<close>

fun table_loop ::
  "(xml_node \<Rightarrow> bool) \<Rightarrow> (xml_node \<Rightarrow> error + 'v) \<Rightarrow> xml_node list \<Rightarrow> (int \<rightharpoonup> 'v) \<Rightarrow> error + (int \<rightharpoonup> 'v)" where
  "table_loop sel dat [] m = Inr m"
| "table_loop sel dat (node # rest) m =
     (if sel node then
        (case get_id_attribute node of
           Inl e \<Rightarrow> Inl e
         | Inr i \<Rightarrow>
             (case dat node of
                Inl e \<Rightarrow> Inl e
              | Inr d \<Rightarrow> table_loop sel dat rest (umap_insert m i d)))
      else table_loop sel dat rest m)"

subsection \<open>Well-formed definitions documents\<close>

text \<open>
  The definitions document the extractor is written for: the root is \<open>Format\<close>, every
  \<open>Source\<close> has an integer \<open>id\<close> of its own, and every \<open>Module\<close> of a source has an
  integer \<open>id\<close>, unique within the source, and an integer \<open>verbosity\<close>.
\<close>

definition well_formed_source :: "xml_node \<Rightarrow> bool" where
  "well_formed_source source =
     (let modules = filter (\<lambda>c. node_name c = ''Module'') (node_children source)
      in \<not> isl (get_id_attribute source)
         \<and> list_all (\<lambda>c. \<not> isl (get_id_attribute c) \<and> \<not> isl (get_verbosity_attribute c)) modules
         \<and> distinct (map get_id_attribute modules))"

definition well_formed_definitions :: "xml_document \<Rightarrow> bool" where
  "well_formed_definitions document =
     (case node_children document of
        [] \<Rightarrow> False
      | root # _ \<Rightarrow>
          node_name root = ''Format''
          \<and> (let sources = filter (\<lambda>n. node_name n = ''Source'') (node_children root)
             in list_all well_formed_source sources \<and> distinct (map get_id_attribute sources)))"

section \<open>The parameter decoder\<close>

text \<open>
  Modelled from the spec: the implementation of \<open>fw_string_formatter::generate_message\<close>
  (\<open>fw-string-formatter.cpp\<close>) and the declaration of \<open>param_info\<close>
  (\<open>fw-log-data.h\<close>) are not among the source files; only the class declaration in
  \<open>fw-string-formatter.h\<close> is. The decoder below follows section 4.4 of the
  specification: a parameter descriptor is a byte width and a kind; a cursor starts at
  0; for each descriptor in order \<open>width\<close> bytes are read at the cursor and interpreted
  by kind, and the cursor advances by \<open>width\<close>; reading past the end of the blob is
  \<open>TruncatedBlob {expected_total, actual_len}\<close>, bytes left over at the end are
  \<open>TrailingBytes\<close>.
\<close>

datatype param_kind = Signed_Integer | Unsigned_Integer | Floating_Point | Enum_Reference string

record param_info =
  width :: nat
  kind :: param_kind

datatype param_value = Integer_Value int | Float_Bits nat | Enum_Key string nat

datatype decode_error = Truncated_Blob nat nat | Trailing_Bytes

text \<open>
  Modelled from the spec: values are little-endian; a signed integer of \<open>n\<close> bytes is
  read in two's complement, a floating-point value keeps its bits, an enum reference
  keeps the raw key for the lookup in the enum table.
\<close>

definition little_endian :: "8 word list \<Rightarrow> nat" where
  "little_endian bytes = foldr (\<lambda>b rest. unat b + 256 * rest) bytes 0"

definition interpret_bytes :: "param_kind \<Rightarrow> 8 word list \<Rightarrow> param_value" where
  "interpret_bytes k bytes =
     (let raw = little_endian bytes
      in case k of
           Unsigned_Integer \<Rightarrow> Integer_Value (int raw)
         | Signed_Integer \<Rightarrow>
             if bytes \<noteq> [] \<and> 2 ^ (8 * length bytes - 1) \<le> raw
             then Integer_Value (int raw - 2 ^ (8 * length bytes))
             else Integer_Value (int raw)
         | Floating_Point \<Rightarrow> Float_Bits raw
         | Enum_Reference enum_name \<Rightarrow> Enum_Key enum_name raw)"

text \<open>
  Modelled from the spec: the cursor loop of section 4.4 (the source of the decoder is
  not among the files). \<open>expected_total\<close> is the sum of all widths, reported by
  \<open>TruncatedBlob\<close>.
\<close>

fun decode_loop ::
  "param_info list \<Rightarrow> 8 word list \<Rightarrow> nat \<Rightarrow> nat \<Rightarrow> param_value list \<Rightarrow> decode_error + param_value list" where
  "decode_loop [] param_blob cursor expected_total decoded =
     (if cursor < length param_blob then Inl Trailing_Bytes else Inr decoded)"
| "decode_loop (info # rest) param_blob cursor expected_total decoded =
     (if length param_blob < cursor + width info
      then Inl (Truncated_Blob expected_total (length param_blob))
      else decode_loop rest param_blob (cursor + width info) expected_total
             (decoded @ [interpret_bytes (kind info) (take (width info) (drop cursor param_blob))]))"

text \<open>
  Modelled from the spec: the parameter decode of \<open>generate_message\<close>, section 4.4,
  started with the cursor at 0 and nothing decoded.
\<close>

definition decode_parameters :: "param_info list \<Rightarrow> 8 word list \<Rightarrow> decode_error + param_value list" where
  "decode_parameters template_params param_blob =
     decode_loop template_params param_blob 0 (sum_list (map width template_params)) []"

section \<open>Example documents\<close>

text \<open>
  Each example is a document text and the tree rapidxml builds from it.
  \<open>example_parser\<close> is the parser restricted to these texts.
\<close>

definition two_sources_xml :: string where
  "two_sources_xml = ''<Format><Source id='0' Name='hw'><File Path='hw.xml'/><Module id='1' verbosity='2'/><Module id='3' verbosity='0'/></Source><Source id='1' Name='sw'><File Path='sw.xml'/><Module id='5' verbosity='4'/></Source></Format>''"

definition two_sources_document :: xml_document where
  "two_sources_document =
     Node [] [] [Node ''Format'' []
       [Node ''Source'' [(''id'', ''0''), (''Name'', ''hw'')]
          [Node ''File'' [(''Path'', ''hw.xml'')] [],
           Node ''Module'' [(''id'', ''1''), (''verbosity'', ''2'')] [],
           Node ''Module'' [(''id'', ''3''), (''verbosity'', ''0'')] []],
        Node ''Source'' [(''id'', ''1''), (''Name'', ''sw'')]
          [Node ''File'' [(''Path'', ''sw.xml'')] [],
           Node ''Module'' [(''id'', ''5''), (''verbosity'', ''4'')] []]]]"

definition missing_verbosity_xml :: string where
  "missing_verbosity_xml = ''<Format><Source id='0'><File Path='hw.xml'/><Module id='1' verbosity='2'/><Module id='3'/></Source></Format>''"

definition missing_verbosity_document :: xml_document where
  "missing_verbosity_document =
     Node [] [] [Node ''Format'' []
       [Node ''Source'' [(''id'', ''0'')]
          [Node ''File'' [(''Path'', ''hw.xml'')] [],
           Node ''Module'' [(''id'', ''1''), (''verbosity'', ''2'')] [],
           Node ''Module'' [(''id'', ''3'')] []]]]"

definition source_without_id_xml :: string where
  "source_without_id_xml = ''<Format><Source Name='hw'><File Path='hw.xml'/></Source><Source id='1'><File Path='sw.xml'/><Module id='5' verbosity='4'/></Source></Format>''"

definition source_without_id_document :: xml_document where
  "source_without_id_document =
     Node [] [] [Node ''Format'' []
       [Node ''Source'' [(''Name'', ''hw'')]
          [Node ''File'' [(''Path'', ''hw.xml'')] []],
        Node ''Source'' [(''id'', ''1'')]
          [Node ''File'' [(''Path'', ''sw.xml'')] [],
           Node ''Module'' [(''id'', ''5''), (''verbosity'', ''4'')] []]]]"

definition empty_path_xml :: string where
  \<open>empty_path_xml = ''<Format><Source id='0'><File Path=""/><File Path='hw.xml'/></Source></Format>''\<close>

definition empty_path_document :: xml_document where
  "empty_path_document =
     Node [] [] [Node ''Format'' []
       [Node ''Source'' [(''id'', ''0'')]
          [Node ''File'' [(''Path'', [])] [],
           Node ''File'' [(''Path'', ''hw.xml'')] []]]]"

definition source_without_file_xml :: string where
  "source_without_file_xml = ''<Format><Source id='0'><Module id='1' verbosity='2'/></Source></Format>''"

definition source_without_file_document :: xml_document where
  "source_without_file_document =
     Node [] [] [Node ''Format'' []
       [Node ''Source'' [(''id'', ''0'')]
          [Node ''Module'' [(''id'', ''1''), (''verbosity'', ''2'')] []]]]"

definition duplicate_ids_xml :: string where
  "duplicate_ids_xml = ''<Format><Event id='7' numberOfArguments='2' format='first'/><File id='1' Name='first.c'/><Event id='7' numberOfArguments='1' format='second'/><File id='1' Name='second.c'/></Format>''"

definition duplicate_ids_document :: xml_document where
  "duplicate_ids_document =
     Node [] [] [Node ''Format'' []
       [Node ''Event'' [(''id'', ''7''), (''numberOfArguments'', ''2''), (''format'', ''first'')] [],
        Node ''File'' [(''id'', ''1''), (''Name'', ''first.c'')] [],
        Node ''Event'' [(''id'', ''7''), (''numberOfArguments'', ''1''), (''format'', ''second'')] [],
        Node ''File'' [(''id'', ''1''), (''Name'', ''second.c'')] []]]"

definition without_second_file_xml :: string where
  "without_second_file_xml = ''<Format><Event id='7' numberOfArguments='2' format='first'/><File id='1' Name='first.c'/><Event id='7' numberOfArguments='1' format='second'/></Format>''"

definition without_second_file_document :: xml_document where
  "without_second_file_document =
     Node [] [] [Node ''Format'' []
       [Node ''Event'' [(''id'', ''7''), (''numberOfArguments'', ''2''), (''format'', ''first'')] [],
        Node ''File'' [(''id'', ''1''), (''Name'', ''first.c'')] [],
        Node ''Event'' [(''id'', ''7''), (''numberOfArguments'', ''1''), (''format'', ''second'')] []]]"

definition without_second_event_xml :: string where
  "without_second_event_xml = ''<Format><Event id='7' numberOfArguments='2' format='first'/><File id='1' Name='first.c'/><File id='1' Name='second.c'/></Format>''"

definition without_second_event_document :: xml_document where
  "without_second_event_document =
     Node [] [] [Node ''Format'' []
       [Node ''Event'' [(''id'', ''7''), (''numberOfArguments'', ''2''), (''format'', ''first'')] [],
        Node ''File'' [(''id'', ''1''), (''Name'', ''first.c'')] [],
        Node ''File'' [(''id'', ''1''), (''Name'', ''second.c'')] []]]"

definition enum_two_attributes_xml :: string where
  "enum_two_attributes_xml = ''<Format><Enums><Enum Name='Power' Type='u8'><EnumValue Key='1' Value='ON'/><EnumValue Key='0' Value='OFF'/></Enum></Enums></Format>''"

definition enum_two_attributes_document :: xml_document where
  "enum_two_attributes_document =
     Node [] [] [Node ''Format'' []
       [Node ''Enums'' []
          [Node ''Enum'' [(''Name'', ''Power''), (''Type'', ''u8'')]
             [Node ''EnumValue'' [(''Key'', ''1''), (''Value'', ''ON'')] [],
              Node ''EnumValue'' [(''Key'', ''0''), (''Value'', ''OFF'')] []]]]]"

definition enum_without_attributes_xml :: string where
  "enum_without_attributes_xml = ''<Format><Enums><Enum><EnumValue Key='1'/></Enum></Enums></Format>''"

definition enum_without_attributes_document :: xml_document where
  "enum_without_attributes_document =
     Node [] [] [Node ''Format'' []
       [Node ''Enums'' []
          [Node ''Enum'' []
             [Node ''EnumValue'' [(''Key'', ''1'')] []]]]]"

definition degenerate_event_xml :: string where
  "degenerate_event_xml = ''<Format><Event id='1' numberOfArguments='0' format='ok'/><Event id='2' numberOfArguments='-1' format='bad'/></Format>''"

definition degenerate_event_document :: xml_document where
  "degenerate_event_document =
     Node [] [] [Node ''Format'' []
       [Node ''Event'' [(''id'', ''1''), (''numberOfArguments'', ''0''), (''format'', ''ok'')] [],
        Node ''Event'' [(''id'', ''2''), (''numberOfArguments'', ''-1''), (''format'', ''bad'')] []]]"

definition degenerate_enum_xml :: string where
  "degenerate_enum_xml = ''<Format><Enums><Enum Name='Power'><EnumValue Key='1' Value='ON'/><EnumValue Key='-1' Value='OFF'/></Enum></Enums></Format>''"

definition degenerate_enum_document :: xml_document where
  "degenerate_enum_document =
     Node [] [] [Node ''Format'' []
       [Node ''Enums'' []
          [Node ''Enum'' [(''Name'', ''Power'')]
             [Node ''EnumValue'' [(''Key'', ''1''), (''Value'', ''ON'')] [],
              Node ''EnumValue'' [(''Key'', ''-1''), (''Value'', ''OFF'')] []]]]]"

definition non_numeric_module_xml :: string where
  "non_numeric_module_xml = ''<Format><Source id='0'><Module id='x'/></Source></Format>''"

definition non_numeric_module_document :: xml_document where
  "non_numeric_module_document =
     Node [] [] [Node ''Format'' []
       [Node ''Source'' [(''id'', ''0'')]
          [Node ''Module'' [(''id'', ''x'')] []]]]"

definition unnamed_degenerate_enum_xml :: string where
  "unnamed_degenerate_enum_xml = ''<Format><Enums><Enum><EnumValue Key='-1' Value='OFF'/></Enum></Enums></Format>''"

definition unnamed_degenerate_enum_document :: xml_document where
  "unnamed_degenerate_enum_document =
     Node [] [] [Node ''Format'' []
       [Node ''Enums'' []
          [Node ''Enum'' []
             [Node ''EnumValue'' [(''Key'', ''-1''), (''Value'', ''OFF'')] []]]]]"

definition event_without_id_xml :: string where
  "event_without_id_xml = ''<Format><Event numberOfArguments='-1' format='bad'/></Format>''"

definition event_without_id_document :: xml_document where
  "event_without_id_document =
     Node [] [] [Node ''Format'' []
       [Node ''Event'' [(''numberOfArguments'', ''-1''), (''format'', ''bad'')] []]]"

definition example_table :: "(string \<times> xml_document) list" where
  "example_table =
     [(two_sources_xml, two_sources_document),
      (missing_verbosity_xml, missing_verbosity_document),
      (source_without_id_xml, source_without_id_document),
      (empty_path_xml, empty_path_document),
      (source_without_file_xml, source_without_file_document),
      (duplicate_ids_xml, duplicate_ids_document),
      (without_second_file_xml, without_second_file_document),
      (without_second_event_xml, without_second_event_document),
      (enum_two_attributes_xml, enum_two_attributes_document),
      (enum_without_attributes_xml, enum_without_attributes_document),
      (degenerate_event_xml, degenerate_event_document),
      (degenerate_enum_xml, degenerate_enum_document),
      (non_numeric_module_xml, non_numeric_module_document),
      (unnamed_degenerate_enum_xml, unnamed_degenerate_enum_document),
      (event_without_id_xml, event_without_id_document)]"

definition example_parser :: xml_parser where
  "example_parser buffer =
     (case map_of example_table (takeWhile (\<lambda>c. c \<noteq> CHR 0x00) buffer) of
        Some document \<Rightarrow> Inr document
      | None \<Rightarrow> Inl Parse_Error)"

section \<open>Properties\<close>

subsection \<open>Loading never sees an empty buffer\<close>

lemma string_to_char_buffer_not_empty: "string_to_char_buffer xml_content \<noteq> []"
  by (simp add: string_to_char_buffer_def)

lemma load_external_xml_buffer:
  "load_external_xml parse (string_to_char_buffer xml_content) = parse (string_to_char_buffer xml_content)"
  by (simp add: load_external_xml_def string_to_char_buffer_not_empty)

text \<open>
  C6. An empty document string should fail with the empty-content error at every entry
  point. In the code the buffer built from the empty string holds the two terminating
  zero bytes, so the emptiness test of \<open>load_external_xml\<close> is false and the parser
  runs on it. rapidxml reads an empty text as a document without nodes
  (\<open>Node [] [] []\<close>); every entry point then asks the missing root for its name, and
  none of them reports the empty-content error.
\<close>

theorem empty_string_reaches_the_parser:
  "string_to_char_buffer [] = [CHR 0x00, CHR 0x00]
   \<and> load_external_xml parse (string_to_char_buffer []) = parse [CHR 0x00, CHR 0x00]
   \<and> get_source_parser_file_path (\<lambda>buffer. Inr (Node [] [] [])) source_id [] = Inl Null_Root_Dereference
   \<and> get_source_module_verbosity (\<lambda>buffer. Inr (Node [] [] [])) source_id [] = Inl Null_Root_Dereference
   \<and> get_events (\<lambda>buffer. Inr (Node [] [] [])) [] = Inl Null_Root_Dereference
   \<and> get_id_to_names (\<lambda>buffer. Inr (Node [] [] [])) [] tag = Inl Null_Root_Dereference
   \<and> get_enums (\<lambda>buffer. Inr (Node [] [] [])) [] = Inl Null_Root_Dereference"
  by (simp add: string_to_char_buffer_def load_external_xml_def get_source_parser_file_path_def
      get_source_module_verbosity_def get_events_def get_id_to_names_def get_enums_def
      get_source_node_def get_first_node_def)

subsection \<open>Facts about the insertion loops\<close>

lemma umap_insert_apply:
  "umap_insert m k v k' = (if k' = k \<and> m k = None then Some v else m k')"
  by (simp add: umap_insert_def split: option.splits)

lemma umap_insert_present: "m k = Some w \<Longrightarrow> umap_insert m k v = m"
  by (simp add: umap_insert_def)

lemma umap_insert_keeps: "m k = Some v \<Longrightarrow> umap_insert m k' v' k = Some v"
  by (auto simp: umap_insert_apply)

lemma id_to_names_loop_table:
  "id_to_names_loop tag nodes m = table_loop (\<lambda>n. node_name n = tag) get_name_attribute nodes m"
  by (induction nodes arbitrary: m) (simp_all split: sum.splits)

lemma get_events_loop_table:
  "get_events_loop nodes m = table_loop (\<lambda>n. node_name n = ''Event'') get_event_data nodes m"
  by (induction nodes arbitrary: m) (simp_all split: sum.splits)

lemma module_verbosity_loop_table:
  "module_verbosity_loop nodes m =
     table_loop (\<lambda>n. node_name n = ''Module'') get_verbosity_attribute nodes m"
  by (induction nodes arbitrary: m) (simp_all split: sum.splits)

lemma table_loop_append:
  "table_loop sel dat (xs @ ys) m =
     (case table_loop sel dat xs m of Inl e \<Rightarrow> Inl e | Inr m' \<Rightarrow> table_loop sel dat ys m')"
  by (induction xs arbitrary: m) (simp_all split: sum.splits)

lemma table_loop_keeps:
  "table_loop sel dat nodes m = Inr tbl \<Longrightarrow> m k = Some v \<Longrightarrow> tbl k = Some v"
proof (induction nodes arbitrary: m)
  case Nil
  then show ?case by simp
next
  case (Cons node rest)
  from Cons.prems(1) obtain m' where "table_loop sel dat rest m' = Inr tbl"
    and "m' = m \<or> (\<exists>i n. m' = umap_insert m i n)"
    by (auto split: if_splits sum.splits)
  moreover from this Cons.prems(2) have "m' k = Some v"
    by (auto simp: umap_insert_keeps)
  ultimately show ?case using Cons.IH by blast
qed

lemma table_loop_first:
  "table_loop sel dat nodes m = Inr tbl \<Longrightarrow> m k = None \<Longrightarrow> i < length nodes \<Longrightarrow>
   sel (nodes ! i) \<Longrightarrow> get_id_attribute (nodes ! i) = Inr k \<Longrightarrow>
   (\<forall>l<i. sel (nodes ! l) \<longrightarrow> get_id_attribute (nodes ! l) \<noteq> Inr k) \<Longrightarrow>
   \<exists>d. dat (nodes ! i) = Inr d \<and> tbl k = Some d"
proof (induction nodes arbitrary: m i)
  case Nil
  then show ?case by simp
next
  case (Cons node rest)
  show ?case
  proof (cases i)
    case 0
    with Cons.prems obtain d where d: "dat node = Inr d"
      and rest: "table_loop sel dat rest (umap_insert m k d) = Inr tbl"
      by (auto split: sum.splits)
    have "umap_insert m k d k = Some d"
      using Cons.prems(2) by (simp add: umap_insert_apply)
    with rest have "tbl k = Some d" by (rule table_loop_keeps)
    with d 0 show ?thesis by simp
  next
    case (Suc j)
    with Cons.prems have j: "j < length rest" "sel (rest ! j)"
      "get_id_attribute (rest ! j) = Inr k"
      "\<forall>l<j. sel (rest ! l) \<longrightarrow> get_id_attribute (rest ! l) \<noteq> Inr k"
      by auto
    from Cons.prems(6) Suc have hd: "sel node \<longrightarrow> get_id_attribute node \<noteq> Inr k"
      by auto
    from Cons.prems(1) hd obtain m' where m': "table_loop sel dat rest m' = Inr tbl" "m' k = None"
      using Cons.prems(2) by (auto simp: umap_insert_apply split: if_splits sum.splits)
    from Cons.IH [OF m' j] Suc show ?thesis by simp
  qed
qed

lemma table_loop_has_key:
  "table_loop sel dat nodes m = Inr tbl \<Longrightarrow> node \<in> set nodes \<Longrightarrow> sel node \<Longrightarrow>
   get_id_attribute node = Inr k \<Longrightarrow> \<exists>v. tbl k = Some v"
proof (induction nodes arbitrary: m)
  case Nil
  then show ?case by simp
next
  case (Cons a rest)
  show ?case
  proof (cases "node = a")
    case True
    with Cons.prems obtain n where rest: "table_loop sel dat rest (umap_insert m k n) = Inr tbl"
      by (auto split: sum.splits)
    obtain v where "umap_insert m k n k = Some v"
      by (cases "m k") (simp_all add: umap_insert_apply)
    with rest have "tbl k = Some v" by (rule table_loop_keeps)
    then show ?thesis ..
  next
    case False
    with Cons.prems have in_rest: "node \<in> set rest" by simp
    from Cons.prems(1) obtain m' where "table_loop sel dat rest m' = Inr tbl"
      by (auto split: if_splits sum.splits)
    then show ?thesis using in_rest Cons.prems(3,4) by (rule Cons.IH)
  qed
qed

lemma table_loop_sound:
  "table_loop sel dat nodes m = Inr tbl \<Longrightarrow> tbl k = Some v \<Longrightarrow>
   m k = Some v \<or> (\<exists>node\<in>set nodes. sel node \<and> get_id_attribute node = Inr k \<and> dat node = Inr v)"
proof (induction nodes arbitrary: m)
  case Nil
  then show ?case by simp
next
  case (Cons a rest)
  show ?case
  proof (cases "sel a")
    case False
    with Cons.prems Cons.IH [of m] show ?thesis by auto
  next
    case True
    with Cons.prems(1) obtain i d where a: "get_id_attribute a = Inr i" "dat a = Inr d"
      and rest: "table_loop sel dat rest (umap_insert m i d) = Inr tbl"
      by (auto split: sum.splits)
    from Cons.IH [OF rest Cons.prems(2)]
    show ?thesis
    proof
      assume "umap_insert m i d k = Some v"
      then show ?thesis using a True by (auto simp: umap_insert_apply split: if_splits)
    next
      assume "\<exists>node\<in>set rest. sel node \<and> get_id_attribute node = Inr k \<and> dat node = Inr v"
      then show ?thesis by auto
    qed
  qed
qed

lemma table_loop_total:
  "(\<forall>node\<in>set nodes. sel node \<longrightarrow> (\<exists>i. get_id_attribute node = Inr i) \<and> (\<exists>d. dat node = Inr d)) \<Longrightarrow>
   \<exists>tbl. table_loop sel dat nodes m = Inr tbl"
  by (induction nodes arbitrary: m) (auto split: sum.splits)



lemma table_loop_drop_duplicate:
  assumes "sel dup" "get_id_attribute dup = Inr k" "dat dup = Inr n"
    and "earlier \<in> set pre" "sel earlier" "get_id_attribute earlier = Inr k"
  shows "table_loop sel dat (pre @ dup # post) m = table_loop sel dat (pre @ post) m"
proof (cases "table_loop sel dat pre m")
  case (Inl e)
  then show ?thesis by (simp add: table_loop_append)
next
  case (Inr m')
  with assms(4-6) obtain v where "m' k = Some v"
    using table_loop_has_key by blast
  then have "umap_insert m' k n = m'" by (rule umap_insert_present)
  with Inr assms(1-3) show ?thesis by (simp add: table_loop_append)
qed

subsection \<open>Evaluating the examples\<close>

lemmas stoi_eval = stoi_def strip_sign_def is_space_def is_digit_def digits_value_def

lemmas attribute_eval = get_id_attribute_def get_name_attribute_def get_verbosity_attribute_def
  get_event_data_def

lemmas example_xml_defs = two_sources_xml_def missing_verbosity_xml_def source_without_id_xml_def
  empty_path_xml_def source_without_file_xml_def duplicate_ids_xml_def without_second_file_xml_def
  without_second_event_xml_def enum_two_attributes_xml_def enum_without_attributes_xml_def
  degenerate_event_xml_def degenerate_enum_xml_def non_numeric_module_xml_def
  unnamed_degenerate_enum_xml_def event_without_id_xml_def

lemma takeWhile_terminator: "z \<notin> set xs \<Longrightarrow> takeWhile (\<lambda>c. c \<noteq> z) (xs @ z # ys) = xs"
  by (induction xs) auto

lemma example_parser_buffer:
  "CHR 0x00 \<notin> set xml \<Longrightarrow>
   example_parser (string_to_char_buffer xml) =
     (case map_of example_table xml of Some document \<Rightarrow> Inr document | None \<Rightarrow> Inl Parse_Error)"
  by (simp add: example_parser_def string_to_char_buffer_def takeWhile_terminator)

lemma parse_two_sources:
  "example_parser (string_to_char_buffer two_sources_xml) = Inr two_sources_document"
  by (subst example_parser_buffer) (simp_all add: example_table_def example_xml_defs)


lemma parse_source_without_id:
  "example_parser (string_to_char_buffer source_without_id_xml) = Inr source_without_id_document"
  by (subst example_parser_buffer) (simp_all add: example_table_def example_xml_defs)

lemma parse_empty_path:
  "example_parser (string_to_char_buffer empty_path_xml) = Inr empty_path_document"
  by (subst example_parser_buffer) (simp_all add: example_table_def example_xml_defs)

lemma parse_source_without_file:
  "example_parser (string_to_char_buffer source_without_file_xml) = Inr source_without_file_document"
  by (subst example_parser_buffer) (simp_all add: example_table_def example_xml_defs)

lemma parse_duplicate_ids:
  "example_parser (string_to_char_buffer duplicate_ids_xml) = Inr duplicate_ids_document"
  by (subst example_parser_buffer) (simp_all add: example_table_def example_xml_defs)

lemma parse_without_second_file:
  "example_parser (string_to_char_buffer without_second_file_xml) = Inr without_second_file_document"
  by (subst example_parser_buffer) (simp_all add: example_table_def example_xml_defs)

lemma parse_without_second_event:
  "example_parser (string_to_char_buffer without_second_event_xml) = Inr without_second_event_document"
  by (subst example_parser_buffer) (simp_all add: example_table_def example_xml_defs)

lemma parse_enum_two_attributes:
  "example_parser (string_to_char_buffer enum_two_attributes_xml) = Inr enum_two_attributes_document"
  by (subst example_parser_buffer) (simp_all add: example_table_def example_xml_defs)

lemma parse_enum_without_attributes:
  "example_parser (string_to_char_buffer enum_without_attributes_xml) = Inr enum_without_attributes_document"
  by (subst example_parser_buffer) (simp_all add: example_table_def example_xml_defs)






subsection \<open>Duplicate ids\<close>

lemma duplicate_ids_nodes:
  "get_first_node duplicate_ids_document =
     Inr [Node ''Event'' [(''id'', ''7''), (''numberOfArguments'', ''2''), (''format'', ''first'')] [],
        Node ''File'' [(''id'', ''1''), (''Name'', ''first.c'')] [],
        Node ''Event'' [(''id'', ''7''), (''numberOfArguments'', ''1''), (''format'', ''second'')] [],
        Node ''File'' [(''id'', ''1''), (''Name'', ''second.c'')] []]"
  by (simp add: get_first_node_def duplicate_ids_document_def)

lemma duplicate_ids_events:
  "get_events example_parser duplicate_ids_xml = Inr [7 \<mapsto> (2, ''first'')]"
  by (simp add: get_events_def load_external_xml_buffer parse_duplicate_ids duplicate_ids_nodes
      attribute_eval stoi_eval umap_insert_def)

lemma duplicate_ids_files:
  "get_id_to_names example_parser duplicate_ids_xml ''File'' = Inr [1 \<mapsto> ''first.c'']"
  by (simp add: get_id_to_names_def load_external_xml_buffer parse_duplicate_ids
      duplicate_ids_nodes attribute_eval stoi_eval umap_insert_def)

text \<open>
  C3. When two nodes of one tag (\<open>Event\<close>, or \<open>File\<close>, \<open>Module\<close>, \<open>Thread\<close>) carry
  the same \<open>id\<close>, the table that \<open>get_events\<close>, \<open>get_files\<close>, \<open>get_modules\<close> or
  \<open>get_threads\<close> returns holds, under that id, the entry of the node that comes first
  in document order; the later node leaves no trace.
\<close>

theorem first_defined_id_wins:
  assumes "parse (string_to_char_buffer parser_contents) = Inr document"
    and "get_first_node document = Inr nodes"
  shows "(get_events parse parser_contents = Inr events \<and> i < j \<and> j < length nodes \<and>
          node_name (nodes ! i) = ''Event'' \<and> node_name (nodes ! j) = ''Event'' \<and>
          get_id_attribute (nodes ! i) = Inr k \<and> get_id_attribute (nodes ! j) = Inr k \<and>
          (\<forall>l<i. node_name (nodes ! l) = ''Event'' \<longrightarrow> get_id_attribute (nodes ! l) \<noteq> Inr k)
          \<longrightarrow> (\<exists>d. get_event_data (nodes ! i) = Inr d \<and> events k = Some d))
       \<and> (get_id_to_names parse parser_contents tag = Inr names \<and> i' < j' \<and> j' < length nodes \<and>
          node_name (nodes ! i') = tag \<and> node_name (nodes ! j') = tag \<and>
          get_id_attribute (nodes ! i') = Inr k' \<and> get_id_attribute (nodes ! j') = Inr k' \<and>
          (\<forall>l<i'. node_name (nodes ! l) = tag \<longrightarrow> get_id_attribute (nodes ! l) \<noteq> Inr k')
          \<longrightarrow> (\<exists>n. get_name_attribute (nodes ! i') = Inr n \<and> names k' = Some n))
       \<and> get_files parse parser_contents = get_id_to_names parse parser_contents ''File''
       \<and> get_modules parse parser_contents = get_id_to_names parse parser_contents ''Module''
       \<and> get_threads parse parser_contents = get_id_to_names parse parser_contents ''Thread''"
proof -
  have ev: "get_events parse parser_contents =
      table_loop (\<lambda>n. node_name n = ''Event'') get_event_data nodes Map.empty"
    using assms by (simp add: get_events_def load_external_xml_buffer get_events_loop_table)
  have nm: "get_id_to_names parse parser_contents tag =
      table_loop (\<lambda>n. node_name n = tag) get_name_attribute nodes Map.empty"
    using assms by (simp add: get_id_to_names_def load_external_xml_buffer id_to_names_loop_table)
  have "\<exists>d. get_event_data (nodes ! i) = Inr d \<and> events k = Some d"
    if "get_events parse parser_contents = Inr events" "i < j" "j < length nodes"
      "node_name (nodes ! i) = ''Event''" "get_id_attribute (nodes ! i) = Inr k"
      "\<forall>l<i. node_name (nodes ! l) = ''Event'' \<longrightarrow> get_id_attribute (nodes ! l) \<noteq> Inr k"
  proof (rule table_loop_first)
    show "table_loop (\<lambda>n. node_name n = ''Event'') get_event_data nodes Map.empty = Inr events"
      using that(1) ev by simp
    show "i < length nodes" using that(2,3) by simp
  qed (use that in simp_all)
  moreover have "\<exists>n. get_name_attribute (nodes ! i') = Inr n \<and> names k' = Some n"
    if "get_id_to_names parse parser_contents tag = Inr names" "i' < j'" "j' < length nodes"
      "node_name (nodes ! i') = tag" "get_id_attribute (nodes ! i') = Inr k'"
      "\<forall>l<i'. node_name (nodes ! l) = tag \<longrightarrow> get_id_attribute (nodes ! l) \<noteq> Inr k'"
  proof (rule table_loop_first)
    show "table_loop (\<lambda>n. node_name n = tag) get_name_attribute nodes Map.empty = Inr names"
      using that(1) nm by simp
    show "i' < length nodes" using that(2,3) by simp
  qed (use that in simp_all)
  ultimately show ?thesis
    by (simp add: get_files_def get_modules_def get_threads_def)
qed

theorem first_defined_id_wins_witness:
  "\<exists>events names.
     get_events example_parser duplicate_ids_xml = Inr events
     \<and> events 7 = Some (2, ''first'')
     \<and> get_files example_parser duplicate_ids_xml = Inr names
     \<and> names 1 = Some ''first.c''"
proof -
  obtain events where events: "get_events example_parser duplicate_ids_xml = Inr events"
    using duplicate_ids_events by blast
  obtain names where names: "get_id_to_names example_parser duplicate_ids_xml ''File'' = Inr names"
    using duplicate_ids_files by blast
  note first = first_defined_id_wins [where parse = example_parser
        and parser_contents = duplicate_ids_xml
        and events = events and i = 0 and j = 2 and k = 7
        and tag = "''File''" and names = names and i' = 1 and j' = 3 and k' = 1,
      OF parse_duplicate_ids duplicate_ids_nodes]
  from first events have "events 7 = Some (2, ''first'')"
    by (simp add: attribute_eval stoi_eval)
  moreover from first names have "names 1 = Some ''first.c''"
    by (simp add: attribute_eval stoi_eval)
  moreover from first names have "get_files example_parser duplicate_ids_xml = Inr names"
    by simp
  ultimately show ?thesis using events by blast
qed

text \<open>
  C4 says that, of two entries with one key, the later overrides the earlier. The tables
  are filled with \<open>insert\<close>, which leaves a key that is present alone: in the example
  the second \<open>File\<close> and the second \<open>Event\<close> of the same id change nothing.
\<close>

theorem later_duplicate_does_not_override:
  "\<exists>files events.
     get_files example_parser duplicate_ids_xml = Inr files
     \<and> files 1 = Some ''first.c'' \<and> files 1 \<noteq> Some ''second.c''
     \<and> get_events example_parser duplicate_ids_xml = Inr events
     \<and> events 7 = Some (2, ''first'') \<and> events 7 \<noteq> Some (1, ''second'')"
  by (simp add: duplicate_ids_events duplicate_ids_files get_files_def)

text \<open>
  C4, as the code has it: a node whose tag and id an earlier node of the document already
  carries is silently ignored. The table is the one of the document without that node,
  and so is the outcome when the extraction fails.
\<close>

theorem later_duplicate_is_ignored:
  assumes "parse (string_to_char_buffer parser_contents) = Inr document"
    and "get_first_node document = Inr (pre @ dup # post)"
    and "parse (string_to_char_buffer parser_contents') = Inr document'"
    and "get_first_node document' = Inr (pre @ post)"
    and "earlier \<in> set pre" and "node_name earlier = node_name dup"
    and "get_id_attribute earlier = Inr k" and "get_id_attribute dup = Inr k"
  shows "(node_name dup = ''Event'' \<and> (\<exists>d. get_event_data dup = Inr d)
          \<longrightarrow> get_events parse parser_contents = get_events parse parser_contents')
       \<and> ((\<exists>n. get_name_attribute dup = Inr n)
          \<longrightarrow> get_id_to_names parse parser_contents (node_name dup) =
              get_id_to_names parse parser_contents' (node_name dup))"
proof (intro conjI impI)
  assume "node_name dup = ''Event'' \<and> (\<exists>d. get_event_data dup = Inr d)"
  then obtain d where dup: "node_name dup = ''Event''" "get_event_data dup = Inr d" by blast
  have "table_loop (\<lambda>n. node_name n = ''Event'') get_event_data (pre @ dup # post) Map.empty =
        table_loop (\<lambda>n. node_name n = ''Event'') get_event_data (pre @ post) Map.empty"
    using dup assms(5-8)
    by (intro table_loop_drop_duplicate [where earlier = earlier and k = k and n = d]) simp_all
  then show "get_events parse parser_contents = get_events parse parser_contents'"
    using assms(1-4) by (simp add: get_events_def load_external_xml_buffer get_events_loop_table)
next
  assume "\<exists>n. get_name_attribute dup = Inr n"
  then obtain n where dup: "get_name_attribute dup = Inr n" by blast
  have "table_loop (\<lambda>n. node_name n = node_name dup) get_name_attribute (pre @ dup # post) Map.empty =
        table_loop (\<lambda>n. node_name n = node_name dup) get_name_attribute (pre @ post) Map.empty"
    using dup assms(5-8)
    by (intro table_loop_drop_duplicate [where earlier = earlier and k = k and n = n]) simp_all
  then show "get_id_to_names parse parser_contents (node_name dup) =
      get_id_to_names parse parser_contents' (node_name dup)"
    using assms(1-4) by (simp add: get_id_to_names_def load_external_xml_buffer id_to_names_loop_table)
qed

theorem later_duplicate_is_ignored_witness:
  "get_events example_parser duplicate_ids_xml = get_events example_parser without_second_event_xml
   \<and> get_events example_parser duplicate_ids_xml = Inr [7 \<mapsto> (2, ''first'')]
   \<and> get_files example_parser duplicate_ids_xml = get_files example_parser without_second_file_xml
   \<and> get_files example_parser duplicate_ids_xml = Inr [1 \<mapsto> ''first.c'']"
proof -
  let ?e1 = "Node ''Event'' [(''id'', ''7''), (''numberOfArguments'', ''2''), (''format'', ''first'')] []"
  let ?f1 = "Node ''File'' [(''id'', ''1''), (''Name'', ''first.c'')] []"
  let ?e2 = "Node ''Event'' [(''id'', ''7''), (''numberOfArguments'', ''1''), (''format'', ''second'')] []"
  let ?f2 = "Node ''File'' [(''id'', ''1''), (''Name'', ''second.c'')] []"
  have full_e: "get_first_node duplicate_ids_document = Inr ([?e1, ?f1] @ ?e2 # [?f2])"
    and full_f: "get_first_node duplicate_ids_document = Inr ([?e1, ?f1, ?e2] @ ?f2 # [])"
    by (simp_all add: duplicate_ids_nodes)
  have short_e: "get_first_node without_second_event_document = Inr ([?e1, ?f1] @ [?f2])"
    by (simp add: get_first_node_def without_second_event_document_def)
  have short_f: "get_first_node without_second_file_document = Inr ([?e1, ?f1, ?e2] @ [])"
    by (simp add: get_first_node_def without_second_file_document_def)
  have "get_events example_parser duplicate_ids_xml =
      get_events example_parser without_second_event_xml"
    using later_duplicate_is_ignored [OF parse_duplicate_ids full_e parse_without_second_event
        short_e, where earlier = ?e1 and k = 7]
    by (simp add: attribute_eval stoi_eval)
  moreover have "get_id_to_names example_parser duplicate_ids_xml ''File'' =
      get_id_to_names example_parser without_second_file_xml ''File''"
    using later_duplicate_is_ignored [OF parse_duplicate_ids full_f parse_without_second_file
        short_f, where earlier = ?f1 and k = 1]
    by (simp add: attribute_eval stoi_eval)
  ultimately show ?thesis
    using duplicate_ids_events duplicate_ids_files by (simp add: get_files_def)
qed

subsection \<open>Finding the source node\<close>

lemma get_source_node_loop_skip:
  "(\<forall>n\<in>set pre. node_name n = ''Source'' \<longrightarrow> (\<exists>i. get_id_attribute n = Inr i \<and> i \<noteq> source_id)) \<Longrightarrow>
   get_source_node_loop source_id (pre @ rest) = get_source_node_loop source_id rest"
  by (induction pre) auto

lemma get_source_node_loop_not_found:
  "(\<forall>n\<in>set nodes. node_name n = ''Source'' \<longrightarrow> (\<exists>i. get_id_attribute n = Inr i \<and> i \<noteq> source_id)) \<Longrightarrow>
   get_source_node_loop source_id nodes = Inl (Source_Node_Not_Found source_id)"
  using get_source_node_loop_skip [of nodes source_id "[]"] by simp

lemma get_source_node_loop_found:
  assumes "list_all (\<lambda>n. \<not> isl (get_id_attribute n)) (filter (\<lambda>n. node_name n = ''Source'') nodes)"
    and "distinct (map get_id_attribute (filter (\<lambda>n. node_name n = ''Source'') nodes))"
    and "source \<in> set nodes" and "node_name source = ''Source''"
    and "get_id_attribute source = Inr source_id"
  shows "get_source_node_loop source_id nodes = Inr source"
  using assms
proof (induction nodes)
  case Nil
  then show ?case by simp
next
  case (Cons node rest)
  show ?case
  proof (cases "node = source")
    case True
    with Cons.prems show ?thesis by simp
  next
    case False
    with Cons.prems have in_rest: "source \<in> set rest" by simp
    have rest: "get_source_node_loop source_id rest = Inr source"
      using Cons.prems in_rest by (intro Cons.IH) (auto split: if_splits)
    show ?thesis
    proof (cases "node_name node = ''Source''")
      case False
      with rest show ?thesis by simp
    next
      case True
      with Cons.prems(1) obtain i where i: "get_id_attribute node = Inr i"
        by (cases "get_id_attribute node") auto
      have "Inr source_id \<in> get_id_attribute ` set (filter (\<lambda>n. node_name n = ''Source'') rest)"
        using in_rest Cons.prems(4,5) by force
      with Cons.prems(2) True i have "i \<noteq> source_id" by auto
      with True i rest show ?thesis by simp
    qed
  qed
qed

text \<open>
  The node the scan returns: the first \<open>Source\<close> node in document order whose \<open>id\<close>
  is the requested one, when every \<open>Source\<close> node before it has an integer id.
\<close>

lemma get_source_node_first:
  assumes "get_first_node document = Inr (nodes_pre @ source # nodes_post)"
    and "\<forall>n\<in>set nodes_pre. node_name n = ''Source'' \<longrightarrow>
           (\<exists>i. get_id_attribute n = Inr i \<and> i \<noteq> source_id)"
    and "node_name source = ''Source''" and "get_id_attribute source = Inr source_id"
  shows "get_source_node source_id document = Inr source"
proof -
  have "get_source_node_loop source_id (nodes_pre @ source # nodes_post) =
      get_source_node_loop source_id (source # nodes_post)"
    using assms(2) by (rule get_source_node_loop_skip)
  also have "\<dots> = Inr source"
    using assms(3,4) by simp
  finally show ?thesis
    using assms(1) by (simp add: get_source_node_def)
qed

subsection \<open>Module verbosity\<close>

lemma distinct_map_eq:
  "distinct (map f xs) \<Longrightarrow> x \<in> set xs \<Longrightarrow> y \<in> set xs \<Longrightarrow> f x = f y \<Longrightarrow> x = y"
  by (meson distinct_map inj_on_def)

text \<open>
  C1. For a well-formed definitions document and a source id that occurs in it,
  \<open>get_source_module_verbosity\<close> returns a table whose entries are exactly the pairs
  (module id, verbosity) of the \<open>Module\<close> children of the \<open>Source\<close> node with that
  id: every such child has its entry, and there is no other entry, so none that comes
  from another source.
\<close>

theorem module_verbosity_of_source:
  assumes "parse (string_to_char_buffer definitions_xml) = Inr document"
    and "well_formed_definitions document"
    and "get_first_node document = Inr nodes"
    and "source \<in> set nodes" and "node_name source = ''Source''"
    and "get_id_attribute source = Inr source_id"
  shows "\<exists>table. get_source_module_verbosity parse source_id definitions_xml = Inr table
     \<and> (\<forall>module_id verbosity. table module_id = Some verbosity \<longleftrightarrow>
          (\<exists>c\<in>set (node_children source). node_name c = ''Module''
             \<and> get_id_attribute c = Inr module_id \<and> get_verbosity_attribute c = Inr verbosity))"
proof -
  let ?sources = "filter (\<lambda>n. node_name n = ''Source'') nodes"
  let ?modules = "filter (\<lambda>c. node_name c = ''Module'') (node_children source)"
  let ?sel = "\<lambda>n. node_name n = ''Module''"
  from assms(2,3) have sources: "list_all well_formed_source ?sources"
    "distinct (map get_id_attribute ?sources)"
    by (auto simp: well_formed_definitions_def get_first_node_def Let_def split: list.splits if_splits)
  from sources(1) have "list_all (\<lambda>n. \<not> isl (get_id_attribute n)) ?sources"
    by (auto simp: list_all_iff well_formed_source_def Let_def)
  with sources(2) assms(4-6) have found: "get_source_node_loop source_id nodes = Inr source"
    by (intro get_source_node_loop_found)
  from sources(1) assms(4,5) have "well_formed_source source"
    by (auto simp: list_all_iff)
  then have modules: "list_all (\<lambda>c. \<not> isl (get_id_attribute c) \<and> \<not> isl (get_verbosity_attribute c)) ?modules"
    "distinct (map get_id_attribute ?modules)"
    by (simp_all add: well_formed_source_def Let_def)
  have run: "get_source_module_verbosity parse source_id definitions_xml =
      table_loop ?sel get_verbosity_attribute (node_children source) Map.empty"
    using assms(1,3) found
    by (simp add: get_source_module_verbosity_def load_external_xml_buffer get_source_node_def
        module_verbosity_loop_table)
  have "\<forall>node\<in>set (node_children source). ?sel node \<longrightarrow>
      (\<exists>i. get_id_attribute node = Inr i) \<and> (\<exists>d. get_verbosity_attribute node = Inr d)"
  proof (intro ballI impI)
    fix node assume "node \<in> set (node_children source)" "node_name node = ''Module''"
    with modules(1) have "\<not> isl (get_id_attribute node)" "\<not> isl (get_verbosity_attribute node)"
      by (auto simp: list_all_iff)
    then show "(\<exists>i. get_id_attribute node = Inr i) \<and> (\<exists>d. get_verbosity_attribute node = Inr d)"
      by (cases "get_id_attribute node"; cases "get_verbosity_attribute node") auto
  qed
  then have "\<exists>table. table_loop ?sel get_verbosity_attribute (node_children source) Map.empty = Inr table"
    by (rule table_loop_total)
  then obtain table where table:
    "table_loop ?sel get_verbosity_attribute (node_children source) Map.empty = Inr table" ..
  have "table module_id = Some verbosity \<longleftrightarrow>
          (\<exists>c\<in>set (node_children source). node_name c = ''Module''
             \<and> get_id_attribute c = Inr module_id \<and> get_verbosity_attribute c = Inr verbosity)"
    for module_id verbosity
  proof
    assume "table module_id = Some verbosity"
    with table_loop_sound [OF table this]
    show "\<exists>c\<in>set (node_children source). node_name c = ''Module''
             \<and> get_id_attribute c = Inr module_id \<and> get_verbosity_attribute c = Inr verbosity"
      by simp
  next
    assume "\<exists>c\<in>set (node_children source). node_name c = ''Module''
             \<and> get_id_attribute c = Inr module_id \<and> get_verbosity_attribute c = Inr verbosity"
    then obtain c where c: "c \<in> set (node_children source)" "node_name c = ''Module''"
      "get_id_attribute c = Inr module_id" "get_verbosity_attribute c = Inr verbosity"
      by blast
    from table_loop_has_key [OF table c(1)] c(2,3) obtain v where v: "table module_id = Some v"
      by auto
    from table_loop_sound [OF table v] obtain c' where c': "c' \<in> set (node_children source)"
      "node_name c' = ''Module''" "get_id_attribute c' = Inr module_id"
      "get_verbosity_attribute c' = Inr v"
      by auto
    have "c' = c"
      using modules(2) c c' by (intro distinct_map_eq [where f = get_id_attribute and xs = ?modules]) simp_all
    with c c' v show "table module_id = Some verbosity" by simp
  qed
  with run table show ?thesis by simp
qed


theorem module_verbosity_of_source_witness:
  "well_formed_definitions two_sources_document
   \<and> (\<exists>table. get_source_module_verbosity example_parser 0 two_sources_xml = Inr table
        \<and> table 1 = Some 2 \<and> table 3 = Some 0 \<and> table 5 = None)"
proof -
  let ?hw = "Node ''Source'' [(''id'', ''0''), (''Name'', ''hw'')]
          [Node ''File'' [(''Path'', ''hw.xml'')] [],
           Node ''Module'' [(''id'', ''1''), (''verbosity'', ''2'')] [],
           Node ''Module'' [(''id'', ''3''), (''verbosity'', ''0'')] []]"
  let ?sw = "Node ''Source'' [(''id'', ''1''), (''Name'', ''sw'')]
          [Node ''File'' [(''Path'', ''sw.xml'')] [],
           Node ''Module'' [(''id'', ''5''), (''verbosity'', ''4'')] []]"
  have wf: "well_formed_definitions two_sources_document"
    by (simp add: well_formed_definitions_def well_formed_source_def two_sources_document_def
        attribute_eval stoi_eval)
  have nodes: "get_first_node two_sources_document = Inr [?hw, ?sw]"
    by (simp add: get_first_node_def two_sources_document_def)
  have hw: "?hw \<in> set [?hw, ?sw]" "node_name ?hw = ''Source''" "get_id_attribute ?hw = Inr 0"
    by (simp_all add: attribute_eval stoi_eval)
  from module_verbosity_of_source [where parse = example_parser and definitions_xml = two_sources_xml
      and source = ?hw and source_id = 0, OF parse_two_sources wf nodes hw]
  obtain table where table: "get_source_module_verbosity example_parser 0 two_sources_xml = Inr table"
    and entries: "\<And>module_id verbosity. table module_id = Some verbosity \<longleftrightarrow>
          (\<exists>c\<in>set (node_children ?hw). node_name c = ''Module''
             \<and> get_id_attribute c = Inr module_id \<and> get_verbosity_attribute c = Inr verbosity)"
    by blast
  have "table 1 = Some 2"
    by (subst entries) (simp add: attribute_eval stoi_eval)
  moreover have "table 3 = Some 0"
    by (subst entries) (simp add: attribute_eval stoi_eval)
  moreover have "table 5 \<noteq> Some verbosity" for verbosity
    by (subst entries) (simp add: attribute_eval stoi_eval)
  then have "table 5 = None" by (cases "table 5") auto
  ultimately show ?thesis using wf table by blast
qed

subsection \<open>Failures of the definitions document\<close>








subsection \<open>A source node without an id\<close>

text \<open>
  C9. The scan for the \<open>Source\<close> node reads the \<open>id\<close> of every \<open>Source\<close> node it
  passes. A \<open>Source\<close> node without \<open>id\<close> that the scan reaches ends both
  \<open>get_source_parser_file_path\<close> and \<open>get_source_module_verbosity\<close> with the error
  for the missing \<open>id\<close>, whatever follows it, also a \<open>Source\<close> node with the requested
  id.
\<close>

theorem source_without_id_aborts_scan:
  assumes "parse (string_to_char_buffer definitions_xml) = Inr document"
    and "get_first_node document = Inr (pre @ bad # post)"
    and "\<forall>n\<in>set pre. node_name n = ''Source'' \<longrightarrow> (\<exists>i. get_id_attribute n = Inr i \<and> i \<noteq> source_id)"
    and "node_name bad = ''Source''" and "map_of (node_attributes bad) ''id'' = None"
  shows "get_source_parser_file_path parse source_id definitions_xml =
           Inl (Cant_Find_Attribute ''id'' ''Source'')
       \<and> get_source_module_verbosity parse source_id definitions_xml =
           Inl (Cant_Find_Attribute ''id'' ''Source'')"
proof -
  have "get_source_node_loop source_id (pre @ bad # post) =
      get_source_node_loop source_id (bad # post)"
    using assms(3) by (rule get_source_node_loop_skip)
  also have "\<dots> = Inl (Cant_Find_Attribute ''id'' ''Source'')"
    using assms(4,5) by (simp add: get_id_attribute_def)
  finally have "get_source_node source_id document = Inl (Cant_Find_Attribute ''id'' ''Source'')"
    using assms(2) by (simp add: get_source_node_def)
  with assms(1) show ?thesis
    by (simp add: get_source_parser_file_path_def get_source_module_verbosity_def
        load_external_xml_buffer)
qed

theorem source_without_id_aborts_scan_witness:
  "(\<exists>later\<in>set (node_children (hd (node_children source_without_id_document))).
      node_name later = ''Source'' \<and> get_id_attribute later = Inr 1)
   \<and> get_source_parser_file_path example_parser 1 source_without_id_xml =
           Inl (Cant_Find_Attribute ''id'' ''Source'')
   \<and> get_source_module_verbosity example_parser 1 source_without_id_xml =
           Inl (Cant_Find_Attribute ''id'' ''Source'')"
proof -
  let ?bad = "Node ''Source'' [(''Name'', ''hw'')] [Node ''File'' [(''Path'', ''hw.xml'')] []]"
  let ?later = "Node ''Source'' [(''id'', ''1'')]
          [Node ''File'' [(''Path'', ''sw.xml'')] [],
           Node ''Module'' [(''id'', ''5''), (''verbosity'', ''4'')] []]"
  have nodes: "get_first_node source_without_id_document = Inr ([] @ ?bad # [?later])"
    by (simp add: get_first_node_def source_without_id_document_def)
  have later: "\<exists>later\<in>set (node_children (hd (node_children source_without_id_document))).
      node_name later = ''Source'' \<and> get_id_attribute later = Inr 1"
    by (simp add: source_without_id_document_def attribute_eval stoi_eval)
  from source_without_id_aborts_scan [where parse = example_parser
      and definitions_xml = source_without_id_xml and source_id = 1,
      OF parse_source_without_id nodes]
  have "get_source_parser_file_path example_parser 1 source_without_id_xml =
           Inl (Cant_Find_Attribute ''id'' ''Source'')
       \<and> get_source_module_verbosity example_parser 1 source_without_id_xml =
           Inl (Cant_Find_Attribute ''id'' ''Source'')"
    by simp
  with later show ?thesis by blast
qed

subsection \<open>The parser file of a source\<close>

lemma get_file_path_loop_first:
  "(\<forall>c\<in>set pre. node_name c = ''File'' \<longrightarrow> map_of (node_attributes c) ''Path'' = None) \<Longrightarrow>
   node_name file = ''File'' \<Longrightarrow> map_of (node_attributes file) ''Path'' = Some path \<Longrightarrow>
   get_file_path_loop (pre @ file # post) = path"
  by (induction pre) auto

lemma get_file_path_loop_none:
  "(\<forall>c\<in>set children. node_name c = ''File'' \<longrightarrow> map_of (node_attributes c) ''Path'' = None) \<Longrightarrow>
   get_file_path_loop children = []"
  by (induction children) auto

text \<open>
  C7 says that \<open>get_source_parser_file_path\<close> fails with the missing-file error
  exactly when the source has no \<open>File\<close> node with a non-empty \<open>Path\<close>, and with the
  not-found error when no \<open>Source\<close> node has the requested id. The loop of
  \<open>get_file_path\<close> returns at the first \<open>File\<close> child that has a \<open>Path\<close>
  attribute: when that path is empty the call fails, although a later \<open>File\<close> child
  has a path. And in a document where no node has the requested id, a \<open>Source\<close> node
  without \<open>id\<close> gives the error for the missing \<open>id\<close>, not the not-found error.
\<close>

theorem empty_first_path_hides_later_file:
  "get_source_parser_file_path example_parser 0 empty_path_xml = Inl (File_Attribute_Not_Found 0)
   \<and> (\<exists>source. get_source_node 0 empty_path_document = Inr source
        \<and> (\<exists>file\<in>set (node_children source). node_name file = ''File''
              \<and> map_of (node_attributes file) ''Path'' = Some ''hw.xml''))
   \<and> get_source_parser_file_path example_parser 0 source_without_id_xml =
        Inl (Cant_Find_Attribute ''id'' ''Source'')
   \<and> (\<exists>nodes. get_first_node source_without_id_document = Inr nodes
        \<and> list_all (\<lambda>n. get_id_attribute n \<noteq> Inr 0) nodes)"
  by (simp add: get_source_parser_file_path_def load_external_xml_buffer parse_empty_path
      parse_source_without_id get_source_node_def get_first_node_def empty_path_document_def
      source_without_id_document_def get_file_path_def attribute_eval stoi_eval)

text \<open>
  C7, as the code has it. Let \<open>source\<close> be the matching node: the first \<open>Source\<close> node
  with the requested id, the \<open>Source\<close> nodes before it having other integer ids. The
  result is the \<open>Path\<close> of the first \<open>File\<close> child of \<open>source\<close> that has a \<open>Path\<close>
  attribute, when that path is not empty; it is the missing-file error when that path
  is empty, and when no \<open>File\<close> child of \<open>source\<close> has a \<open>Path\<close> attribute. It is the
  not-found error when every \<open>Source\<close> node has an integer id other than the requested
  one.
\<close>

theorem parser_file_path_of_source:
  assumes "parse (string_to_char_buffer definitions_xml) = Inr document"
  shows "(get_first_node document = Inr (nodes_pre @ source # nodes_post)
          \<and> (\<forall>n\<in>set nodes_pre. node_name n = ''Source'' \<longrightarrow>
                (\<exists>i. get_id_attribute n = Inr i \<and> i \<noteq> source_id))
          \<and> node_name source = ''Source'' \<and> get_id_attribute source = Inr source_id
          \<and> node_children source = pre @ file_node # post
          \<and> (\<forall>c\<in>set pre. node_name c = ''File'' \<longrightarrow> map_of (node_attributes c) ''Path'' = None)
          \<and> node_name file_node = ''File'' \<and> map_of (node_attributes file_node) ''Path'' = Some path
          \<longrightarrow> get_source_parser_file_path parse source_id definitions_xml =
                (if path = [] then Inl (File_Attribute_Not_Found source_id) else Inr path))
       \<and> (get_first_node document = Inr (nodes_pre @ source # nodes_post)
          \<and> (\<forall>n\<in>set nodes_pre. node_name n = ''Source'' \<longrightarrow>
                (\<exists>i. get_id_attribute n = Inr i \<and> i \<noteq> source_id))
          \<and> node_name source = ''Source'' \<and> get_id_attribute source = Inr source_id
          \<and> (\<forall>c\<in>set (node_children source).
                node_name c = ''File'' \<longrightarrow> map_of (node_attributes c) ''Path'' = None)
          \<longrightarrow> get_source_parser_file_path parse source_id definitions_xml =
                Inl (File_Attribute_Not_Found source_id))
       \<and> (get_first_node document = Inr nodes
          \<and> (\<forall>n\<in>set nodes. node_name n = ''Source'' \<longrightarrow>
                (\<exists>i. get_id_attribute n = Inr i \<and> i \<noteq> source_id))
          \<longrightarrow> get_source_parser_file_path parse source_id definitions_xml =
                Inl (Source_Node_Not_Found source_id))"
proof (intro conjI impI)
  assume a: "get_first_node document = Inr (nodes_pre @ source # nodes_post)
          \<and> (\<forall>n\<in>set nodes_pre. node_name n = ''Source'' \<longrightarrow>
                (\<exists>i. get_id_attribute n = Inr i \<and> i \<noteq> source_id))
          \<and> node_name source = ''Source'' \<and> get_id_attribute source = Inr source_id
          \<and> node_children source = pre @ file_node # post
          \<and> (\<forall>c\<in>set pre. node_name c = ''File'' \<longrightarrow> map_of (node_attributes c) ''Path'' = None)
          \<and> node_name file_node = ''File'' \<and> map_of (node_attributes file_node) ''Path'' = Some path"
  then have found: "get_source_node source_id document = Inr source"
    by (intro get_source_node_first [where nodes_pre = nodes_pre and nodes_post = nodes_post])
      simp_all
  from a have "get_file_path_loop (pre @ file_node # post) = path"
    by (intro get_file_path_loop_first) simp_all
  with a have "get_file_path source = path" by (simp add: get_file_path_def)
  with found assms
  show "get_source_parser_file_path parse source_id definitions_xml =
                (if path = [] then Inl (File_Attribute_Not_Found source_id) else Inr path)"
    by (simp add: get_source_parser_file_path_def load_external_xml_buffer)
next
  assume a: "get_first_node document = Inr (nodes_pre @ source # nodes_post)
          \<and> (\<forall>n\<in>set nodes_pre. node_name n = ''Source'' \<longrightarrow>
                (\<exists>i. get_id_attribute n = Inr i \<and> i \<noteq> source_id))
          \<and> node_name source = ''Source'' \<and> get_id_attribute source = Inr source_id
          \<and> (\<forall>c\<in>set (node_children source).
                node_name c = ''File'' \<longrightarrow> map_of (node_attributes c) ''Path'' = None)"
  then have found: "get_source_node source_id document = Inr source"
    by (intro get_source_node_first [where nodes_pre = nodes_pre and nodes_post = nodes_post])
      simp_all
  from a have "get_file_path source = []"
    by (simp add: get_file_path_def get_file_path_loop_none)
  with found assms
  show "get_source_parser_file_path parse source_id definitions_xml =
                Inl (File_Attribute_Not_Found source_id)"
    by (simp add: get_source_parser_file_path_def load_external_xml_buffer)
next
  assume a: "get_first_node document = Inr nodes
          \<and> (\<forall>n\<in>set nodes. node_name n = ''Source'' \<longrightarrow>
                (\<exists>i. get_id_attribute n = Inr i \<and> i \<noteq> source_id))"
  then have "get_source_node_loop source_id nodes = Inl (Source_Node_Not_Found source_id)"
    by (intro get_source_node_loop_not_found) simp
  with a assms
  show "get_source_parser_file_path parse source_id definitions_xml =
                Inl (Source_Node_Not_Found source_id)"
    by (simp add: get_source_parser_file_path_def load_external_xml_buffer get_source_node_def)
qed

theorem parser_file_path_of_source_witness:
  "get_source_parser_file_path example_parser 0 two_sources_xml = Inr ''hw.xml''
   \<and> get_source_parser_file_path example_parser 1 two_sources_xml = Inr ''sw.xml''
   \<and> get_source_parser_file_path example_parser 0 empty_path_xml = Inl (File_Attribute_Not_Found 0)
   \<and> get_source_parser_file_path example_parser 0 source_without_file_xml =
       Inl (File_Attribute_Not_Found 0)
   \<and> get_source_parser_file_path example_parser 7 two_sources_xml = Inl (Source_Node_Not_Found 7)"
proof -
  let ?file = "Node ''File'' [(''Path'', ''hw.xml'')] []"
  let ?modules = "[Node ''Module'' [(''id'', ''1''), (''verbosity'', ''2'')] [],
           Node ''Module'' [(''id'', ''3''), (''verbosity'', ''0'')] []]"
  let ?hw = "Node ''Source'' [(''id'', ''0''), (''Name'', ''hw'')] (?file # ?modules)"
  let ?sw_file = "Node ''File'' [(''Path'', ''sw.xml'')] []"
  let ?sw_modules = "[Node ''Module'' [(''id'', ''5''), (''verbosity'', ''4'')] []]"
  let ?sw = "Node ''Source'' [(''id'', ''1''), (''Name'', ''sw'')] (?sw_file # ?sw_modules)"
  let ?empty = "Node ''File'' [(''Path'', [])] []"
  let ?two_files = "Node ''Source'' [(''id'', ''0'')] [?empty, ?file]"
  let ?no_file = "Node ''Source'' [(''id'', ''0'')]
          [Node ''Module'' [(''id'', ''1''), (''verbosity'', ''2'')] []]"
  have first: "get_first_node two_sources_document = Inr ([] @ ?hw # [?sw])"
    and second: "get_first_node two_sources_document = Inr ([?hw] @ ?sw # [])"
    and nodes: "get_first_node two_sources_document = Inr [?hw, ?sw]"
    by (simp_all add: get_first_node_def two_sources_document_def)
  have "get_source_parser_file_path example_parser 0 two_sources_xml = Inr ''hw.xml''"
    using parser_file_path_of_source [where parse = example_parser
        and definitions_xml = two_sources_xml and source_id = 0 and source = ?hw
        and nodes_pre = "[]" and nodes_post = "[?sw]"
        and pre = "[]" and file_node = ?file and post = ?modules and path = "''hw.xml''",
        OF parse_two_sources] first
    by (simp add: get_id_attribute_def stoi_eval)
  moreover
  have "get_source_parser_file_path example_parser 1 two_sources_xml = Inr ''sw.xml''"
    using parser_file_path_of_source [where parse = example_parser
        and definitions_xml = two_sources_xml and source_id = 1 and source = ?sw
        and nodes_pre = "[?hw]" and nodes_post = "[]"
        and pre = "[]" and file_node = ?sw_file and post = ?sw_modules and path = "''sw.xml''",
        OF parse_two_sources] second
    by (simp add: get_id_attribute_def stoi_eval)
  moreover
  have two_files: "get_first_node empty_path_document = Inr ([] @ ?two_files # [])"
    by (simp add: get_first_node_def empty_path_document_def)
  have "get_source_parser_file_path example_parser 0 empty_path_xml =
      Inl (File_Attribute_Not_Found 0)"
    using parser_file_path_of_source [where parse = example_parser
        and definitions_xml = empty_path_xml and source_id = 0 and source = ?two_files
        and nodes_pre = "[]" and nodes_post = "[]"
        and pre = "[]" and file_node = ?empty and post = "[?file]" and path = "[]",
        OF parse_empty_path] two_files
    by (simp add: get_id_attribute_def stoi_eval)
  moreover
  have no_file: "get_first_node source_without_file_document = Inr ([] @ ?no_file # [])"
    by (simp add: get_first_node_def source_without_file_document_def)
  have "get_source_parser_file_path example_parser 0 source_without_file_xml =
      Inl (File_Attribute_Not_Found 0)"
    using parser_file_path_of_source [where parse = example_parser
        and definitions_xml = source_without_file_xml and source_id = 0 and source = ?no_file
        and nodes_pre = "[]" and nodes_post = "[]",
        OF parse_source_without_file] no_file
    by (simp add: get_id_attribute_def stoi_eval)
  moreover
  have "get_source_parser_file_path example_parser 7 two_sources_xml =
      Inl (Source_Node_Not_Found 7)"
    using parser_file_path_of_source [where parse = example_parser
        and definitions_xml = two_sources_xml and source_id = 7 and nodes = "[?hw, ?sw]",
        OF parse_two_sources] nodes
    by (simp add: get_id_attribute_def stoi_eval)
  ultimately show ?thesis by blast
qed

subsection \<open>Enum groups\<close>

text \<open>
  C2. \<open>get_enums\<close> should hold every child of the \<open>Enums\<close> node exactly once, under its
  \<open>Name\<close>, and fail when an \<open>EnumValue\<close> lacks \<open>Key\<close> or \<open>Value\<close>. The code reads the
  values and inserts inside the loop over the attributes of the child. A child with
  the attributes \<open>Name\<close> and \<open>Type\<close> is inserted twice, under its name and under the
  empty name; a child without attributes is never inserted and its values are never
  read, so an \<open>EnumValue\<close> without \<open>Value\<close> goes unnoticed.
\<close>

theorem enum_group_inserted_once_per_attribute:
  "get_enums example_parser enum_two_attributes_xml =
     Inr [''Power'' \<mapsto> [(1, ''ON''), (0, ''OFF'')], [] \<mapsto> [(1, ''ON''), (0, ''OFF'')]]
   \<and> get_enums example_parser enum_without_attributes_xml = Inr Map.empty"
  by (simp add: get_enums_def load_external_xml_buffer parse_enum_two_attributes
      parse_enum_without_attributes get_first_node_def enum_two_attributes_document_def
      enum_without_attributes_document_def get_enum_values_def stoi_eval umap_insert_def)

subsection \<open>The parameter decoder\<close>

lemma decode_loop_truncated:
  "cursor \<le> length param_blob \<Longrightarrow>
   length param_blob < cursor + sum_list (map width template_params) \<Longrightarrow>
   decode_loop template_params param_blob cursor expected_total decoded =
     Inl (Truncated_Blob expected_total (length param_blob))"
proof (induction template_params arbitrary: cursor decoded)
  case Nil
  then show ?case by simp
next
  case (Cons info rest)
  show ?case
  proof (cases "length param_blob < cursor + width info")
    case True
    then show ?thesis by simp
  next
    case False
    then have "cursor + width info \<le> length param_blob" by simp
    moreover from Cons.prems(2)
    have "length param_blob < cursor + width info + sum_list (map width rest)" by simp
    ultimately have "decode_loop rest param_blob (cursor + width info) expected_total
        (decoded @ [interpret_bytes (kind info) (take (width info) (drop cursor param_blob))]) =
        Inl (Truncated_Blob expected_total (length param_blob))"
      by (rule Cons.IH)
    with False show ?thesis by simp
  qed
qed

lemma decode_loop_trailing:
  "cursor + sum_list (map width template_params) < length param_blob \<Longrightarrow>
   decode_loop template_params param_blob cursor expected_total decoded = Inl Trailing_Bytes"
proof (induction template_params arbitrary: cursor decoded)
  case Nil
  then show ?case by simp
next
  case (Cons info rest)
  then have "cursor + width info + sum_list (map width rest) < length param_blob" by simp
  then have "decode_loop rest param_blob (cursor + width info) expected_total
        (decoded @ [interpret_bytes (kind info) (take (width info) (drop cursor param_blob))]) =
        Inl Trailing_Bytes"
    by (rule Cons.IH)
  with Cons.prems show ?case by simp
qed

lemma decode_loop_exact:
  "cursor + sum_list (map width template_params) = length param_blob \<Longrightarrow>
   \<exists>values. decode_loop template_params param_blob cursor expected_total decoded = Inr values
     \<and> length values = length decoded + length template_params"
proof (induction template_params arbitrary: cursor decoded)
  case Nil
  then show ?case by simp
next
  case (Cons info rest)
  let ?decoded = "decoded @ [interpret_bytes (kind info) (take (width info) (drop cursor param_blob))]"
  from Cons.prems have "cursor + width info + sum_list (map width rest) = length param_blob"
    by simp
  then have "\<exists>values. decode_loop rest param_blob (cursor + width info) expected_total ?decoded =
      Inr values \<and> length values = length ?decoded + length rest"
    by (rule Cons.IH)
  moreover from Cons.prems have "\<not> length param_blob < cursor + width info" by simp
  ultimately show ?case by simp
qed

text \<open>
  C8. Decoding fails with \<open>TruncatedBlob\<close> when the blob is shorter than the sum of
  the widths of the parameters, fails with \<open>TrailingBytes\<close> when it is longer, by one
  byte or more, and succeeds exactly when the length of the blob is that sum; it then
  yields one value for each parameter.
\<close>

theorem decode_needs_exact_length:
  "(length param_blob < sum_list (map width template_params) \<longrightarrow>
      decode_parameters template_params param_blob =
        Inl (Truncated_Blob (sum_list (map width template_params)) (length param_blob)))
   \<and> (sum_list (map width template_params) < length param_blob \<longrightarrow>
      decode_parameters template_params param_blob = Inl Trailing_Bytes)
   \<and> ((\<exists>values. decode_parameters template_params param_blob = Inr values) \<longleftrightarrow>
      length param_blob = sum_list (map width template_params))
   \<and> (\<forall>values. decode_parameters template_params param_blob = Inr values \<longrightarrow>
      length values = length template_params)"
proof -
  let ?total = "sum_list (map width template_params)"
  consider (short) "length param_blob < ?total" | (long) "?total < length param_blob"
    | (exact) "?total = length param_blob"
    by linarith
  then show ?thesis
  proof cases
    case short
    then show ?thesis
      by (simp add: decode_parameters_def decode_loop_truncated)
  next
    case long
    then show ?thesis
      by (simp add: decode_parameters_def decode_loop_trailing)
  next
    case exact
    with decode_loop_exact [of 0 template_params param_blob ?total "[]"] show ?thesis
      by (auto simp: decode_parameters_def)
  qed
qed

theorem decode_needs_exact_length_witness:
  "decode_parameters
     [\<lparr>width = 2, kind = Unsigned_Integer\<rparr>, \<lparr>width = 1, kind = Enum_Reference ''PowerEnum''\<rparr>]
     [42, 0] = Inl (Truncated_Blob 3 2)
   \<and> decode_parameters
     [\<lparr>width = 2, kind = Unsigned_Integer\<rparr>, \<lparr>width = 1, kind = Enum_Reference ''PowerEnum''\<rparr>]
     [42, 0, 0, 0] = Inl Trailing_Bytes
   \<and> (\<exists>values. decode_parameters
     [\<lparr>width = 2, kind = Unsigned_Integer\<rparr>, \<lparr>width = 1, kind = Enum_Reference ''PowerEnum''\<rparr>]
     [42, 0, 0] = Inr values \<and> length values = 2)"
proof -
  let ?params = "[\<lparr>width = 2, kind = Unsigned_Integer\<rparr>,
      \<lparr>width = 1, kind = Enum_Reference ''PowerEnum''\<rparr>]"
  have "decode_parameters ?params [42, 0] = Inl (Truncated_Blob 3 2)"
    using decode_needs_exact_length [of "[42, 0]" ?params] by simp
  moreover have "decode_parameters ?params [42, 0, 0, 0] = Inl Trailing_Bytes"
    using decode_needs_exact_length [of "[42, 0, 0, 0]" ?params] by simp
  moreover have "\<exists>values. decode_parameters ?params [42, 0, 0] = Inr values \<and> length values = 2"
    using decode_needs_exact_length [of "[42, 0, 0]" ?params] by auto
  ultimately show ?thesis by blast
qed

lemma decode_example:
  "decode_parameters
     [\<lparr>width = 2, kind = Unsigned_Integer\<rparr>, \<lparr>width = 1, kind = Enum_Reference ''PowerEnum''\<rparr>]
     [42, 0, 0] = Inr [Integer_Value 42, Enum_Key ''PowerEnum'' 0]"
  by (simp add: decode_parameters_def interpret_bytes_def little_endian_def)

subsection \<open>Degenerate attribute values\<close>

















end
